theory Spec2Isabelle
  imports Main "HOL-Library.Word"
begin

section \<open>Python values, exceptions and byte strings\<close>

text \<open>
  A Python \<open>str\<close> is modelled as a \<open>string\<close>: a list of characters with code points
  below 256.  A character is ASCII when its code point is below 128.  \<open>bytes\<close> values
  are lists of 8-bit words.
\<close>

type_synonym byte = "8 word"

datatype exn =
    ValueError
  | TypeError
  | AttributeError
  | KeyError
  | UnicodeEncodeError
  | WalletLocked
  | WrongMasterPasswordException
  | PyException string

datatype pyval = PyNone | PyBool bool | PyInt int | PyStr string

text \<open>Truth value of a Python object, as \<open>bool(v)\<close> and the \<open>and\<close> operator use it.\<close>

fun truthy :: "pyval \<Rightarrow> bool" where
  "truthy PyNone = False"
| "truthy (PyBool b) = b"
| "truthy (PyInt i) = (i \<noteq> 0)"
| "truthy (PyStr s) = (s \<noteq> [])"

text \<open>\<open>bytes(s, "ascii")\<close>: raises \<open>UnicodeEncodeError\<close> on a character outside ASCII.\<close>

definition is_ascii :: "string \<Rightarrow> bool" where
  "is_ascii s = list_all (\<lambda>c. (of_char c :: nat) < 128) s"

definition bytes_ascii :: "string \<Rightarrow> exn + byte list" where
  "bytes_ascii s = (if is_ascii s then Inr (map of_char s) else Inl UnicodeEncodeError)"

text \<open>\<open>binascii.hexlify(b).decode("ascii")\<close>: two lowercase hexadecimal digits per byte.\<close>

definition hexdigit :: "nat \<Rightarrow> char" where
  "hexdigit n = ''0123456789abcdef'' ! (n mod 16)"

definition hexlify :: "byte list \<Rightarrow> string" where
  "hexlify bs = concat (map (\<lambda>b. [hexdigit (unat b div 16), hexdigit (unat b)]) bs)"

text \<open>\<open>s.split(sep)\<close> for a one-character separator.\<close>

fun split_on :: "char \<Rightarrow> string \<Rightarrow> string list" where
  "split_on c [] = [[]]"
| "split_on c (x # xs) =
     (if x = c then [] # split_on c xs
      else (case split_on c xs of w # ws \<Rightarrow> (x # w) # ws | [] \<Rightarrow> [[x]]))"

section \<open>\<open>StoreInterface\<close>: a dictionary with class-level defaults\<close>

text \<open>
  \<open>StoreInterface\<close> subclasses \<open>dict\<close>; \<open>defaults\<close> is an attribute of the class,
  written by the class method \<open>setdefault\<close>.  The record holds the dictionary's own
  entries and the class-level defaults the instance sees.
\<close>

record ('k, 'v) store =
  items :: "'k \<rightharpoonup> 'v"
  defaults :: "'k \<rightharpoonup> 'v"

text \<open>\<open>dict.__getitem__\<close> raises \<open>KeyError\<close> for a missing key.\<close>

definition dict_getitem :: "('k \<rightharpoonup> pyval) \<Rightarrow> 'k \<Rightarrow> exn + pyval" where
  "dict_getitem d key = (case d key of None \<Rightarrow> Inl KeyError | Some v \<Rightarrow> Inr v)"

definition dict_contains :: "('k \<rightharpoonup> 'v) \<Rightarrow> 'k \<Rightarrow> bool" where
  "dict_contains d key = (d key \<noteq> None)"

definition setdefault :: "('k, 'v) store \<Rightarrow> 'k \<Rightarrow> 'v \<Rightarrow> ('k, 'v) store" where
  "setdefault s key v = s\<lparr>defaults := (defaults s)(key \<mapsto> v)\<rparr>"

definition setitem :: "('k, 'v) store \<Rightarrow> 'k \<Rightarrow> 'v \<Rightarrow> ('k, 'v) store" where
  "setitem s key v = s\<lparr>items := (items s)(key \<mapsto> v)\<rparr>"

definition contains :: "('k, 'v) store \<Rightarrow> 'k \<Rightarrow> bool" where
  "contains s key = dict_contains (items s) key"

definition getitem :: "('k, pyval) store \<Rightarrow> 'k \<Rightarrow> exn + pyval" where
  "getitem s key =
     (if contains s key then dict_getitem (items s) key
      else if dict_contains (defaults s) key then dict_getitem (defaults s) key
      else Inr PyNone)"

section \<open>The process environment and the external primitives\<close>

text \<open>
  \<open>os.environ\<close> and the operating system's random source.  \<open>os.urandom(n)\<close> returns the
  next \<open>n\<close> bytes of the source.
\<close>

record os_state =
  environ :: "string \<rightharpoonup> string"
  urandom_src :: "nat \<Rightarrow> byte"
  urandom_pos :: nat

definition urandom_bytes :: "nat \<Rightarrow> os_state \<Rightarrow> byte list" where
  "urandom_bytes n os = map (urandom_src os) [urandom_pos os..<urandom_pos os + n]"

definition urandom_advance :: "nat \<Rightarrow> os_state \<Rightarrow> os_state" where
  "urandom_advance n os = os\<lparr>urandom_pos := urandom_pos os + n\<rparr>"

text \<open>
  \<open>graphenebase.aes.AESCipher\<close> and \<open>graphenebase.bip38\<close> are imported by
  \<open>masterpassword.py\<close> and are not part of the sources at hand, so they are parameters
  of the model.  \<open>aes_encrypt pw iv x\<close> stands for \<open>AESCipher(pw).encrypt(x)\<close>, where
  \<open>iv\<close> is fresh randomness the cipher may use; \<open>aes_decrypt pw c\<close> stands for
  \<open>AESCipher(pw).decrypt(c)\<close> and may raise.  \<open>bip38_encrypt wif key\<close> stands for
  \<open>format(bip38.encrypt(str(wif), key), "encwif")\<close> and \<open>bip38_decrypt wif key\<close> for
  \<open>format(bip38.decrypt(wif, key), "wif")\<close>; the key may be \<open>None\<close>.
  \<open>sha256 b\<close> stands for \<open>hashlib.sha256(b).digest()\<close> of the Python standard
  library, which is outside the repository as well; its \<open>hexdigest()\<close> is the digest
  in lowercase hexadecimal.
\<close>

record crypto =
  aes_encrypt :: "string \<Rightarrow> byte list \<Rightarrow> string \<Rightarrow> string"
  aes_decrypt :: "string \<Rightarrow> string \<Rightarrow> exn + string"
  bip38_encrypt :: "string \<Rightarrow> string option \<Rightarrow> exn + string"
  bip38_decrypt :: "string \<Rightarrow> string option \<Rightarrow> exn + string"
  sha256 :: "byte list \<Rightarrow> byte list"

definition sha256_hexdigest :: "crypto \<Rightarrow> byte list \<Rightarrow> string" where
  "sha256_hexdigest P bs = hexlify (sha256 P bs)"

section \<open>\<open>MasterPassword\<close>\<close>

text \<open>\<open>derive_checksum\<close>: the first four characters of the hexadecimal digest.\<close>

definition derive_checksum :: "crypto \<Rightarrow> string \<Rightarrow> exn + string" where
  "derive_checksum P s =
     (case bytes_ascii s of
        Inl e \<Rightarrow> Inl e
      | Inr bs \<Rightarrow> Inr (take 4 (sha256_hexdigest P bs)))"

record master_password =
  config :: "(string, pyval) store"
  password :: "string option"
  decrypted_master :: "string option"
  config_key :: string

type_synonym state = "os_state \<times> master_password"

type_synonym 'a result = "(exn + 'a) \<times> state"

text \<open>\<open>__init__\<close>: a missing config store is a \<open>ValueError\<close>.\<close>

definition MasterPassword :: "(string, pyval) store option \<Rightarrow> exn + master_password" where
  "MasterPassword cfg =
     (case cfg of
        None \<Rightarrow> Inl ValueError
      | Some c \<Rightarrow>
          Inr \<lparr>config = c, password = None, decrypted_master = None,
               config_key = ''encrypted_master_password''\<rparr>)"

definition masterkey :: "master_password \<Rightarrow> string option" where
  "masterkey m = decrypted_master m"

definition has_masterpassword :: "master_password \<Rightarrow> bool" where
  "has_masterpassword m = contains (config m) (config_key m)"

text \<open>
  The condition \<open>self.config_key in self.config and self.config[self.config_key]\<close>
  that \<open>unlocked\<close>, \<open>unlock\<close> and \<open>new_master\<close> share.
\<close>

definition config_has_master :: "master_password \<Rightarrow> bool" where
  "config_has_master m =
     (contains (config m) (config_key m) \<and>
      (case getitem (config m) (config_key m) of Inr v \<Rightarrow> truthy v | Inl _ \<Rightarrow> False))"

definition raise_wrong_master_password_exception :: "state \<Rightarrow> unit result" where
  "raise_wrong_master_password_exception st =
     (Inl WrongMasterPasswordException, (fst st, (snd st)\<lparr>password := None\<rparr>))"

text \<open>
  \<open>decrypt_encrypted_master\<close>.  The cipher object is built and the stored entry is split
  before the \<open>try\<close>; whatever the \<open>try\<close> body raises, also the
  \<open>WrongMasterPasswordException\<close> of a checksum mismatch, reaches the handler, which
  calls \<open>raise_wrong_master_password_exception\<close>.  When no password is held the
  code builds \<open>AESCipher(None)\<close>; the sources at hand do not say what that does, and it
  is taken to raise \<open>TypeError\<close> before the \<open>try\<close>.  No property below depends on
  that case.
\<close>

definition decrypt_encrypted_master :: "crypto \<Rightarrow> state \<Rightarrow> unit result" where
  "decrypt_encrypted_master P st =
     (case password (snd st) of
        None \<Rightarrow> (Inl TypeError, st)
      | Some pw \<Rightarrow>
         (case getitem (config (snd st)) (config_key (snd st)) of
            Inl e \<Rightarrow> (Inl e, st)
          | Inr (PyStr entry) \<Rightarrow>
             (case split_on CHR ''$'' entry of
                [checksum, encrypted_master] \<Rightarrow>
                  (case aes_decrypt P pw encrypted_master of
                     Inl e \<Rightarrow> raise_wrong_master_password_exception st
                   | Inr dm \<Rightarrow>
                      (case derive_checksum P dm of
                         Inl e \<Rightarrow> raise_wrong_master_password_exception st
                       | Inr c \<Rightarrow>
                          if checksum \<noteq> c
                          then raise_wrong_master_password_exception
                                 (snd (raise_wrong_master_password_exception st))
                          else (Inr (), (fst st, (snd st)\<lparr>decrypted_master := Some dm\<rparr>))))
              | _ \<Rightarrow> (Inl ValueError, st))
          | Inr _ \<Rightarrow> (Inl AttributeError, st)))"

text \<open>
  The rank of a call in the cycle of the five methods below.  \<open>unlocked\<close> calls
  \<open>unlock\<close> only while no password is held, and \<open>unlock\<close> stores one first, so the
  chain \<open>unlocked\<close>, \<open>unlock\<close>, \<open>new_master\<close>, \<open>save_encrypted_master\<close>,
  \<open>get_encrypted_master\<close>, \<open>unlocked\<close> ends there.
\<close>

definition held_rank :: "state \<Rightarrow> nat \<Rightarrow> nat" where
  "held_rank st n = (if password (snd st) = None then n + 5 else n)"

fun call_rank ::
  "((crypto \<times> state) + (crypto \<times> string \<times> state)) +
   ((crypto \<times> string \<times> state) + ((crypto \<times> state) + (crypto \<times> state))) \<Rightarrow> nat" where
  "call_rank (Inl (Inl (P, st))) = held_rank st 0"
| "call_rank (Inl (Inr (P, pw, st))) = 4"
| "call_rank (Inr (Inl (P, pw, st))) = 3"
| "call_rank (Inr (Inr (Inl (P, st)))) = held_rank st 2"
| "call_rank (Inr (Inr (Inr (P, st)))) = held_rank st 1"

text \<open>
  \<open>unlocked\<close>, \<open>unlock\<close>, \<open>new_master\<close>, \<open>save_encrypted_master\<close> and
  \<open>get_encrypted_master\<close> call one another.  Every function returns the exception or
  the value together with the state it leaves behind.  \<open>derive_checksum(None)\<close> is the
  \<open>TypeError\<close> of \<open>bytes(None, "ascii")\<close>.  The cipher is handed the next 16 bytes of
  the random source when it encrypts.
\<close>

function unlocked :: "crypto \<Rightarrow> state \<Rightarrow> bool result"
  and unlock :: "crypto \<Rightarrow> string \<Rightarrow> state \<Rightarrow> unit result"
  and new_master :: "crypto \<Rightarrow> string \<Rightarrow> state \<Rightarrow> string option result"
  and save_encrypted_master :: "crypto \<Rightarrow> state \<Rightarrow> unit result"
  and get_encrypted_master :: "crypto \<Rightarrow> state \<Rightarrow> string result"
where
  "unlocked P st =
     (case password (snd st) of
        Some pw \<Rightarrow> (Inr (pw \<noteq> []), st)
      | None \<Rightarrow>
         (case environ (fst st) ''UNLOCK'' of
            None \<Rightarrow> (Inr False, st)
          | Some u \<Rightarrow>
             if u \<noteq> [] \<and> config_has_master (snd st)
             then (case unlock P u st of
                     (Inl e, st') \<Rightarrow> (Inl e, st')
                   | (Inr _, st') \<Rightarrow>
                       (Inr (case password (snd st') of None \<Rightarrow> False | Some p \<Rightarrow> p \<noteq> []), st'))
             else (Inr False, st)))"
| "unlock P pw st =
     (if config_has_master ((snd st)\<lparr>password := Some pw\<rparr>)
      then decrypt_encrypted_master P (fst st, (snd st)\<lparr>password := Some pw\<rparr>)
      else (case new_master P pw (fst st, (snd st)\<lparr>password := Some pw\<rparr>) of
              (Inl e, st') \<Rightarrow> (Inl e, st')
            | (Inr _, st') \<Rightarrow> (Inr (), st')))"
| "new_master P pw st =
     (if config_has_master (snd st)
      then (Inl (PyException ''Storage already has a masterpassword!''), st)
      else (case save_encrypted_master P
                   (urandom_advance 32 (fst st),
                    (snd st)\<lparr>decrypted_master := Some (hexlify (urandom_bytes 32 (fst st))),
                             password := Some pw\<rparr>) of
              (Inl e, st') \<Rightarrow> (Inl e, st')
            | (Inr _, st') \<Rightarrow> (Inr (masterkey (snd st')), st')))"
| "save_encrypted_master P st =
     (case get_encrypted_master P st of
        (Inl e, st') \<Rightarrow> (Inl e, st')
      | (Inr v, st') \<Rightarrow>
          (Inr (), (fst st',
                    (snd st')\<lparr>config := setitem (config (snd st')) (config_key (snd st')) (PyStr v)\<rparr>)))"
| "get_encrypted_master P st =
     (case unlocked P st of
        (Inl e, st') \<Rightarrow> (Inl e, st')
      | (Inr b, st') \<Rightarrow>
          if \<not> b then (Inl WalletLocked, st')
          else (case password (snd st') of
                  None \<Rightarrow> (Inl TypeError, st')
                | Some pw \<Rightarrow>
                   (case masterkey (snd st') of
                      None \<Rightarrow> (Inl TypeError, st')
                    | Some mk \<Rightarrow>
                       (case derive_checksum P mk of
                          Inl e \<Rightarrow> (Inl e, st')
                        | Inr cs \<Rightarrow>
                            (Inr (cs @ ''$'' @ aes_encrypt P pw (urandom_bytes 16 (fst st')) mk),
                             (urandom_advance 16 (fst st'), snd st'))))))"
  by pat_completeness auto
termination
  by (relation "measure call_rank") (auto simp: held_rank_def)

definition lock :: "state \<Rightarrow> state" where
  "lock st = (fst st, (snd st)\<lparr>password := None, decrypted_master := None\<rparr>)"

definition locked :: "crypto \<Rightarrow> state \<Rightarrow> bool result" where
  "locked P st =
     (case unlocked P st of
        (Inl e, st') \<Rightarrow> (Inl e, st')
      | (Inr b, st') \<Rightarrow> (Inr (\<not> b), st'))"

definition change_password :: "crypto \<Rightarrow> string \<Rightarrow> state \<Rightarrow> unit result" where
  "change_password P new_password st =
     (case unlocked P st of
        (Inl e, st') \<Rightarrow> (Inl e, st')
      | (Inr b, st') \<Rightarrow>
          if \<not> b then (Inl WalletLocked, st')
          else save_encrypted_master P (fst st', (snd st')\<lparr>password := Some new_password\<rparr>))"

definition decrypt :: "crypto \<Rightarrow> string \<Rightarrow> state \<Rightarrow> string result" where
  "decrypt P wif st =
     (case unlocked P st of
        (Inl e, st') \<Rightarrow> (Inl e, st')
      | (Inr b, st') \<Rightarrow>
          if \<not> b then (Inl WalletLocked, st')
          else (bip38_decrypt P wif (masterkey (snd st')), st'))"

definition encrypt :: "crypto \<Rightarrow> string \<Rightarrow> state \<Rightarrow> string result" where
  "encrypt P wif st =
     (case unlocked P st of
        (Inl e, st') \<Rightarrow> (Inl e, st')
      | (Inr b, st') \<Rightarrow>
          if \<not> b then (Inl WalletLocked, st')
          else (bip38_encrypt P wif (masterkey (snd st')), st'))"

section \<open>Notions used to state the properties\<close>

text \<open>
  The two fields that line 100 of \<open>decrypt_encrypted_master\<close> unpacks from the stored
  entry, when the entry is a string with exactly one \<open>$\<close>.
\<close>

definition stored_fields :: "master_password \<Rightarrow> (string \<times> string) option" where
  "stored_fields m =
     (case getitem (config m) (config_key m) of
        Inr (PyStr entry) \<Rightarrow>
          (case split_on CHR ''$'' entry of
             [checksum, encrypted_master] \<Rightarrow> Some (checksum, encrypted_master)
           | _ \<Rightarrow> None)
      | _ \<Rightarrow> None)"

text \<open>
  The cipher fails or garbles: decrypting \<open>ct\<close> under \<open>pw\<close> raises, or gives a string
  whose checksum is not \<open>cs\<close>.
\<close>

definition aes_rejects :: "crypto \<Rightarrow> string \<Rightarrow> string \<Rightarrow> string \<Rightarrow> bool" where
  "aes_rejects C pw ct cs =
     (case aes_decrypt C pw ct of Inl e \<Rightarrow> True | Inr dm \<Rightarrow> derive_checksum C dm \<noteq> Inr cs)"

section \<open>A concrete cipher and a concrete store, for examples\<close>

text \<open>
  A toy cipher with the interface of \<open>AESCipher\<close>: the key is the sum of the password's
  bytes, encryption adds the key to every byte and writes the result in hexadecimal,
  decryption raises \<open>ValueError\<close> on anything that is not hexadecimal; the digest is
  32 bytes derived from the sum of the message's bytes.  A second cipher,
  \<open>dollar_crypto\<close>, also decrypts what it encrypts but writes a \<open>$\<close> into its
  ciphertext.
\<close>

definition hexval :: "char \<Rightarrow> nat option" where
  "hexval c =
     (let n = (of_char c :: nat)
      in if 48 \<le> n \<and> n \<le> 57 then Some (n - 48)
         else if 97 \<le> n \<and> n \<le> 102 then Some (n - 87)
         else None)"

fun unhexlify :: "string \<Rightarrow> byte list option" where
  "unhexlify [] = Some []"
| "unhexlify [a] = None"
| "unhexlify (a # b # r) =
     (case hexval a of
        None \<Rightarrow> None
      | Some h \<Rightarrow>
         (case hexval b of
            None \<Rightarrow> None
          | Some l \<Rightarrow>
             (case unhexlify r of
                None \<Rightarrow> None
              | Some bs \<Rightarrow> Some (of_nat (16 * h + l) # bs))))"

definition demo_key :: "string \<Rightarrow> byte" where
  "demo_key pw = foldr (\<lambda>c k. of_char c + k) pw 0"

definition demo_aes_encrypt :: "string \<Rightarrow> byte list \<Rightarrow> string \<Rightarrow> string" where
  "demo_aes_encrypt pw iv x = hexlify (map (\<lambda>c. of_char c + demo_key pw) x)"

definition demo_aes_decrypt :: "string \<Rightarrow> string \<Rightarrow> exn + string" where
  "demo_aes_decrypt pw c =
     (case unhexlify c of
        None \<Rightarrow> Inl ValueError
      | Some bs \<Rightarrow> Inr (map (\<lambda>b. char_of (unat (b - demo_key pw))) bs))"

definition demo_sha256 :: "byte list \<Rightarrow> byte list" where
  "demo_sha256 bs = map (\<lambda>i. of_nat i + foldr (+) bs 0) [0..<32]"

definition demo_bip38 :: "string \<Rightarrow> string option \<Rightarrow> exn + string" where
  "demo_bip38 wif key = (case key of None \<Rightarrow> Inl TypeError | Some k \<Rightarrow> Inr (rev wif))"

definition dollar_crypto :: crypto where
  "dollar_crypto =
     \<lparr>aes_encrypt = (\<lambda>pw iv x. CHR ''$'' # x), aes_decrypt = (\<lambda>pw c. Inr (tl c)),
      bip38_encrypt = demo_bip38, bip38_decrypt = demo_bip38,
      sha256 = demo_sha256\<rparr>"

definition demo_os :: os_state where
  "demo_os = \<lparr>environ = Map.empty, urandom_src = of_nat, urandom_pos = 0\<rparr>"

definition demo_os_unlock :: "string \<Rightarrow> os_state" where
  "demo_os_unlock u = demo_os\<lparr>environ := [''UNLOCK'' \<mapsto> u]\<rparr>"

definition demo_store :: "(string, pyval) store" where
  "demo_store = \<lparr>items = Map.empty, defaults = Map.empty\<rparr>"

definition demo_manager :: master_password where
  "demo_manager =
     \<lparr>config = demo_store, password = None, decrypted_master = None,
      config_key = ''encrypted_master_password''\<rparr>"

definition demo_crypto :: crypto where
  "demo_crypto =
     \<lparr>aes_encrypt = demo_aes_encrypt, aes_decrypt = demo_aes_decrypt,
      bip38_encrypt = demo_bip38, bip38_decrypt = demo_bip38,
      sha256 = demo_sha256\<rparr>"

text \<open>A manager holding the password \<open>pw\<close> over a store with the entry \<open>0000$xabc\<close>.\<close>

definition demo_entry_manager :: master_password where
  "demo_entry_manager =
     demo_manager\<lparr>config := setitem demo_store ''encrypted_master_password'' (PyStr ''0000$xabc''),
                  password := Some ''pw''\<rparr>"

section \<open>Basic facts\<close>

lemma hexdigit_cases:
  "hexdigit n \<in> set ''0123456789abcdef''"
  unfolding hexdigit_def by (rule nth_mem) simp

lemma set_hexlify: "set (hexlify bs) \<subseteq> set ''0123456789abcdef''"
  unfolding hexlify_def using hexdigit_cases by (induction bs) auto

lemma dollar_notin_hexlify: "CHR ''$'' \<notin> set (hexlify bs)"
  using set_hexlify [of bs] by auto

lemma is_ascii_hexlify: "is_ascii (hexlify bs)"
proof -
  have "is_ascii ''0123456789abcdef''" by (simp add: is_ascii_def)
  then show ?thesis
    using set_hexlify [of bs] unfolding is_ascii_def list_all_iff by blast
qed

lemma length_hexlify: "length (hexlify bs) = 2 * length bs"
  unfolding hexlify_def by (induction bs) auto

lemma split_on_no_sep: "c \<notin> set a \<Longrightarrow> split_on c a = [a]"
  by (induction a) auto

lemma split_on_once:
  "c \<notin> set a \<Longrightarrow> c \<notin> set b \<Longrightarrow> split_on c (a @ c # b) = [a, b]"
  by (induction a) (auto simp: split_on_no_sep)

lemma derive_checksum_ascii:
  "is_ascii s \<Longrightarrow> derive_checksum C s = Inr (take 4 (sha256_hexdigest C (map of_char s)))"
  by (simp add: derive_checksum_def bytes_ascii_def)

lemma derive_checksum_non_ascii:
  "\<not> is_ascii s \<Longrightarrow> derive_checksum C s = Inl UnicodeEncodeError"
  by (simp add: derive_checksum_def bytes_ascii_def)

lemma derive_checksum_Inr:
  assumes "derive_checksum C s = Inr c"
  shows "CHR ''$'' \<notin> set c"
proof -
  from assms have c: "c = take 4 (sha256_hexdigest C (map of_char s))"
    by (auto simp: derive_checksum_def bytes_ascii_def split: if_splits)
  have "set c \<subseteq> set (sha256_hexdigest C (map of_char s))"
    unfolding c by (rule set_take_subset)
  then show ?thesis
    using dollar_notin_hexlify unfolding sha256_hexdigest_def by blast
qed

declare unlocked.simps [simp del] unlock.simps [simp del] new_master.simps [simp del]
  save_encrypted_master.simps [simp del] get_encrypted_master.simps [simp del]

lemma unlocked_held:
  "password (snd st) = Some pw \<Longrightarrow> unlocked P st = (Inr (pw \<noteq> []), st)"
  by (simp add: unlocked.simps)

lemma unlocked_no_auto:
  assumes "password (snd st) = None"
    and "environ (fst st) ''UNLOCK'' = None \<or> environ (fst st) ''UNLOCK'' = Some []
         \<or> \<not> config_has_master (snd st)"
  shows "unlocked P st = (Inr False, st)"
  using assms by (auto simp: unlocked.simps split: option.splits)

lemma get_encrypted_master_held:
  assumes "password (snd st) = Some pw" "pw \<noteq> []"
    and "decrypted_master (snd st) = Some mk" "derive_checksum P mk = Inr cs"
  shows "get_encrypted_master P st =
         (Inr (cs @ CHR ''$'' # aes_encrypt P pw (urandom_bytes 16 (fst st)) mk),
          (urandom_advance 16 (fst st), snd st))"
  using assms by (simp add: get_encrypted_master.simps unlocked_held masterkey_def)

lemma get_encrypted_master_empty_password:
  assumes "password (snd st) = Some []"
  shows "get_encrypted_master P st = (Inl WalletLocked, st)"
  using assms by (simp add: get_encrypted_master.simps unlocked_held)

lemma save_encrypted_master_held:
  assumes "password (snd st) = Some pw" "pw \<noteq> []"
    and "decrypted_master (snd st) = Some mk" "derive_checksum P mk = Inr cs"
  shows "save_encrypted_master P st =
         (Inr (),
          (urandom_advance 16 (fst st),
           (snd st)\<lparr>config := setitem (config (snd st)) (config_key (snd st))
              (PyStr (cs @ CHR ''$'' # aes_encrypt P pw (urandom_bytes 16 (fst st)) mk))\<rparr>))"
  using assms by (simp add: save_encrypted_master.simps get_encrypted_master_held)

lemma derive_checksum_hexlify:
  "derive_checksum C (hexlify bs) = Inr (take 4 (sha256_hexdigest C (map of_char (hexlify bs))))"
  by (simp add: derive_checksum_ascii is_ascii_hexlify)

lemma unlock_new:
  assumes "\<not> config_has_master m" "pw \<noteq> []"
  shows "unlock P pw (os, m) =
         (Inr (),
          (urandom_advance 16 (urandom_advance 32 os),
           m\<lparr>config := setitem (config m) (config_key m)
                 (PyStr (take 4 (sha256_hexdigest P (map of_char (hexlify (urandom_bytes 32 os))))
                         @ CHR ''$'' #
                         aes_encrypt P pw (urandom_bytes 16 (urandom_advance 32 os))
                           (hexlify (urandom_bytes 32 os)))),
              password := Some pw,
              decrypted_master := Some (hexlify (urandom_bytes 32 os))\<rparr>))"
proof -
  have nm: "\<not> config_has_master (m\<lparr>password := Some pw\<rparr>)"
    using assms(1) by (simp add: config_has_master_def)
  show ?thesis
    using nm assms(2)
    by (simp add: unlock.simps new_master.simps
        save_encrypted_master_held [where pw = pw and mk = "hexlify (urandom_bytes 32 os)"
          and cs = "take 4 (sha256_hexdigest P (map of_char (hexlify (urandom_bytes 32 os))))"]
        derive_checksum_hexlify masterkey_def)
qed

lemma unlock_new_empty_password:
  assumes "\<not> config_has_master m"
  shows "unlock P [] (os, m) =
         (Inl WalletLocked,
          (urandom_advance 32 os,
           m\<lparr>password := Some [],
              decrypted_master := Some (hexlify (urandom_bytes 32 os))\<rparr>))"
proof -
  have nm: "\<not> config_has_master (m\<lparr>password := Some []\<rparr>)"
    using assms(1) by (simp add: config_has_master_def)
  show ?thesis
    using nm
    by (simp add: unlock.simps new_master.simps save_encrypted_master.simps
        get_encrypted_master_empty_password)
qed

lemma config_has_master_entry:
  assumes "items (config m) (config_key m) = Some (PyStr e)" "e \<noteq> []"
  shows "config_has_master m"
  using assms by (simp add: config_has_master_def contains_def dict_contains_def getitem_def
      dict_getitem_def)

lemma hexval_hexdigit_16: "\<forall>k \<in> set [0..<16]. hexval (hexdigit k) = Some k"
  by code_simp

lemma hexval_hexdigit: "hexval (hexdigit n) = Some (n mod 16)"
proof -
  have "n mod 16 \<in> set [0..<16]" by simp
  then have "hexval (hexdigit (n mod 16)) = Some (n mod 16)"
    using hexval_hexdigit_16 by blast
  then show ?thesis by (simp add: hexdigit_def)
qed

lemma byte_of_nibbles: "of_nat (16 * (unat b div 16 mod 16) + unat b mod 16) = (b :: byte)"
proof -
  have "unat b < 256" using unsigned_less [of b] by simp
  then have "unat b div 16 mod 16 = unat b div 16" by simp
  then have "16 * (unat b div 16 mod 16) + unat b mod 16 = unat b" by simp
  then show ?thesis by (simp only: of_nat_unat ucast_id)
qed

lemma unhexlify_hexlify: "unhexlify (hexlify bs) = Some bs"
proof (induction bs)
  case Nil
  then show ?case by (simp add: hexlify_def)
next
  case (Cons b bs)
  have "hexlify (b # bs) = hexdigit (unat b div 16) # hexdigit (unat b) # hexlify bs"
    by (simp add: hexlify_def)
  then show ?case
    using Cons byte_of_nibbles [of b]
    by (simp add: hexval_hexdigit del: of_nat_add of_nat_mult)
qed

lemma char_of_unat_of_char: "char_of (unat (of_char c :: byte)) = c"
proof -
  have "(of_char c :: byte) = of_nat (of_char c)" by (rule of_nat_of_char [symmetric])
  then have "unat (of_char c :: byte) = of_char c mod 256"
    by (simp only: unat_of_nat) simp
  then have "unat (of_char c :: byte) = of_char c"
    using nat_of_char_less_256 [of c] by simp
  then show ?thesis by simp
qed

lemma demo_aes_roundtrip: "demo_aes_decrypt pw (demo_aes_encrypt pw iv x) = Inr x"
  by (simp add: demo_aes_decrypt_def demo_aes_encrypt_def unhexlify_hexlify o_def
      char_of_unat_of_char map_idI)

lemma demo_aes_cross:
  "demo_aes_decrypt q (demo_aes_encrypt p iv x) =
   Inr (map (\<lambda>c. char_of (unat (of_char c + demo_key p - demo_key q))) x)"
  by (simp add: demo_aes_decrypt_def demo_aes_encrypt_def unhexlify_hexlify o_def)

lemma demo_aes_no_dollar: "CHR ''$'' \<notin> set (demo_aes_encrypt pw iv x)"
  by (simp add: demo_aes_encrypt_def dollar_notin_hexlify)

lemma MasterPassword_demo: "MasterPassword (Some demo_store) = Inr demo_manager"
  by (simp add: MasterPassword_def demo_manager_def)

lemma getitem_stored:
  "items (config m) (config_key m) = Some v \<Longrightarrow> getitem (config m) (config_key m) = Inr v"
  by (simp add: getitem_def contains_def dict_contains_def dict_getitem_def)

lemma decrypt_encrypted_master_fields:
  assumes "password (snd st) = Some pw" "stored_fields (snd st) = Some (cs, ct)"
  shows "decrypt_encrypted_master C st =
         (case aes_decrypt C pw ct of
            Inl e \<Rightarrow> (Inl WrongMasterPasswordException, (fst st, (snd st)\<lparr>password := None\<rparr>))
          | Inr dm \<Rightarrow>
             (case derive_checksum C dm of
                Inl e \<Rightarrow> (Inl WrongMasterPasswordException, (fst st, (snd st)\<lparr>password := None\<rparr>))
              | Inr c \<Rightarrow>
                 if cs \<noteq> c
                 then (Inl WrongMasterPasswordException, (fst st, (snd st)\<lparr>password := None\<rparr>))
                 else (Inr (), (fst st, (snd st)\<lparr>decrypted_master := Some dm\<rparr>))))"
  using assms
  by (auto simp: decrypt_encrypted_master_def stored_fields_def
      raise_wrong_master_password_exception_def split: sum.splits pyval.splits list.splits)

lemma decrypt_encrypted_master_rejected:
  assumes "password (snd st) = Some pw" "stored_fields (snd st) = Some (cs, ct)"
    and "aes_rejects C pw ct cs"
  shows "decrypt_encrypted_master C st =
         (Inl WrongMasterPasswordException, (fst st, (snd st)\<lparr>password := None\<rparr>))"
  using assms(3) unfolding decrypt_encrypted_master_fields [OF assms(1,2)] aes_rejects_def
  by (auto split: sum.splits)

lemma decrypt_encrypted_master_accepted:
  assumes "password (snd st) = Some pw" "stored_fields (snd st) = Some (cs, ct)"
    and "aes_decrypt C pw ct = Inr dm" "derive_checksum C dm = Inr cs"
  shows "decrypt_encrypted_master C st =
         (Inr (), (fst st, (snd st)\<lparr>decrypted_master := Some dm\<rparr>))"
  using assms(3,4) unfolding decrypt_encrypted_master_fields [OF assms(1,2)] by simp

lemma decrypt_encrypted_master_success:
  assumes "decrypt_encrypted_master C st = (Inr x, st')"
  shows "\<exists>pw dm c. password (snd st) = Some pw \<and> derive_checksum C dm = Inr c \<and>
           st' = (fst st, (snd st)\<lparr>decrypted_master := Some dm\<rparr>)"
  using assms
  by (auto simp: decrypt_encrypted_master_def raise_wrong_master_password_exception_def
      split: option.splits sum.splits pyval.splits list.splits if_splits)

lemma config_has_master_update [simp]:
  "config_has_master (m\<lparr>password := p\<rparr>) = config_has_master m"
  "config_has_master (m\<lparr>decrypted_master := d\<rparr>) = config_has_master m"
  by (simp_all add: config_has_master_def)

lemma stored_fields_update [simp]:
  "stored_fields (m\<lparr>password := p\<rparr>) = stored_fields m"
  "stored_fields (m\<lparr>decrypted_master := d\<rparr>) = stored_fields m"
  by (simp_all add: stored_fields_def)

lemma unlock_has_master:
  "config_has_master (snd st) \<Longrightarrow>
   unlock C pw st = decrypt_encrypted_master C (fst st, (snd st)\<lparr>password := Some pw\<rparr>)"
  by (simp add: unlock.simps)

lemma unlock_rejected:
  assumes "config_has_master (snd st)" "stored_fields (snd st) = Some (cs, ct)"
    and "aes_rejects C pw ct cs"
  shows "unlock C pw st = (Inl WrongMasterPasswordException, (fst st, (snd st)\<lparr>password := None\<rparr>))"
  using decrypt_encrypted_master_rejected
    [of "(fst st, (snd st)\<lparr>password := Some pw\<rparr>)" pw cs ct C] assms
  by (simp add: unlock_has_master)

lemma unlock_accepted:
  assumes "config_has_master (snd st)" "stored_fields (snd st) = Some (cs, ct)"
    and "aes_decrypt C pw ct = Inr dm" "derive_checksum C dm = Inr cs"
  shows "unlock C pw st =
         (Inr (), (fst st, (snd st)\<lparr>password := Some pw, decrypted_master := Some dm\<rparr>))"
  using decrypt_encrypted_master_accepted
    [of "(fst st, (snd st)\<lparr>password := Some pw\<rparr>)" pw cs ct C dm] assms
  by (simp add: unlock_has_master)

lemma stored_after_setitem:
  assumes "CHR ''$'' \<notin> set cs" "CHR ''$'' \<notin> set ct"
  shows "stored_fields (m\<lparr>config := setitem (config m) (config_key m) (PyStr (cs @ CHR ''$'' # ct))\<rparr>)
         = Some (cs, ct)"
    and "config_has_master
           (m\<lparr>config := setitem (config m) (config_key m) (PyStr (cs @ CHR ''$'' # ct))\<rparr>)"
  using assms
  by (simp_all add: stored_fields_def config_has_master_def setitem_def getitem_def contains_def
      dict_contains_def dict_getitem_def split_on_once)

lemma dollar_notin_checksum: "CHR ''$'' \<notin> set (take 4 (sha256_hexdigest C bs))"
  using dollar_notin_hexlify [of "sha256 C bs"] set_take_subset [of 4 "sha256_hexdigest C bs"]
  unfolding sha256_hexdigest_def by blast

lemma lock_state:
  "lock (os, m) = (os, m\<lparr>password := None, decrypted_master := None\<rparr>)"
  by (simp add: lock_def)

text \<open>The state an initialising \<open>unlock\<close> leaves, and what a later \<open>unlock\<close> finds.\<close>

lemma unlock_new_then_lock:
  assumes "\<not> config_has_master m" "pw \<noteq> []"
    and "CHR ''$'' \<notin> set (aes_encrypt C pw (urandom_bytes 16 (urandom_advance 32 os))
                               (hexlify (urandom_bytes 32 os)))"
  shows "fst (unlock C pw (os, m)) = Inr ()"
    and "masterkey (snd (snd (unlock C pw (os, m)))) = Some (hexlify (urandom_bytes 32 os))"
    and "password (snd (snd (unlock C pw (os, m)))) = Some pw"
    and "config_has_master (snd (snd (unlock C pw (os, m))))"
    and "stored_fields (snd (snd (unlock C pw (os, m)))) =
         Some (take 4 (sha256_hexdigest C (map of_char (hexlify (urandom_bytes 32 os)))),
               aes_encrypt C pw (urandom_bytes 16 (urandom_advance 32 os))
                 (hexlify (urandom_bytes 32 os)))"
  using assms(3)
  by (simp_all add: unlock_new [OF assms(1,2)] masterkey_def stored_after_setitem
      dollar_notin_checksum)

lemma lock_fields [simp]:
  "config_has_master (snd (lock st)) = config_has_master (snd st)"
  "stored_fields (snd (lock st)) = stored_fields (snd st)"
  "fst (lock st) = fst st"
  "password (snd (lock st)) = None"
  "decrypted_master (snd (lock st)) = None"
  by (simp_all add: lock_def)

lemma split_on_append: "c \<notin> set a \<Longrightarrow> split_on c (a @ c # r) = a # split_on c r"
  by (induction a) auto

lemma demo_crypto_simps [simp]:
  "aes_encrypt demo_crypto = demo_aes_encrypt"
  "aes_decrypt demo_crypto = demo_aes_decrypt"
  "bip38_encrypt demo_crypto = demo_bip38"
  "bip38_decrypt demo_crypto = demo_bip38"
  "sha256 demo_crypto = demo_sha256"
  by (simp_all add: demo_crypto_def)

lemma demo_manager_fresh [simp]:
  "\<not> config_has_master demo_manager"
  "password demo_manager = None"
  "decrypted_master demo_manager = None"
  by (simp_all add: demo_manager_def demo_store_def config_has_master_def contains_def
      dict_contains_def)

lemma demo_master_1: "hexlify (urandom_bytes 32 demo_os) =
  ''000102030405060708090a0b0c0d0e0f101112131415161718191a1b1c1d1e1f''"
  by code_simp

lemma demo_master_2: "hexlify (urandom_bytes 32 (urandom_advance 32 demo_os)) =
  ''202122232425262728292a2b2c2d2e2f303132333435363738393a3b3c3d3e3f''"
  by code_simp

lemma dollar_crypto_roundtrip:
  "aes_decrypt dollar_crypto pw (aes_encrypt dollar_crypto pw iv x) = Inr x"
  by (simp add: dollar_crypto_def)

lemma unlock_three_fields:
  assumes "items (config (snd st)) (config_key (snd st)) = Some (PyStr (a @ CHR ''$'' # CHR ''$'' # b))"
    and "CHR ''$'' \<notin> set a" "CHR ''$'' \<notin> set b"
  shows "unlock C pw st = (Inl ValueError, (fst st, (snd st)\<lparr>password := Some pw\<rparr>))"
proof -
  have "config_has_master (snd st)"
    using assms(1) by (simp add: config_has_master_entry)
  moreover have "split_on CHR ''$'' (a @ CHR ''$'' # CHR ''$'' # b) = [a, [], b]"
    using assms(2,3) by (simp add: split_on_append split_on_no_sep)
  ultimately show ?thesis
    using assms(1)
    by (simp add: unlock_has_master decrypt_encrypted_master_def getitem_stored)
qed

lemma unlock_success:
  assumes "unlock C pw st = (Inr x, s1)"
  shows "password (snd s1) = Some pw"
    and "\<exists>M c. decrypted_master (snd s1) = Some M \<and> derive_checksum C M = Inr c"
    and "pw \<noteq> [] \<or> config_has_master (snd st)"
proof -
  have "password (snd s1) = Some pw \<and>
        (\<exists>M c. decrypted_master (snd s1) = Some M \<and> derive_checksum C M = Inr c) \<and>
        (pw \<noteq> [] \<or> config_has_master (snd st))"
  proof (cases "config_has_master (snd st)")
    case True
    with assms have "decrypt_encrypted_master C (fst st, (snd st)\<lparr>password := Some pw\<rparr>) = (Inr x, s1)"
      by (simp add: unlock_has_master)
    from decrypt_encrypted_master_success [OF this] True show ?thesis by auto
  next
    case False
    show ?thesis
    proof (cases "pw = []")
      case True
      with False assms unlock_new_empty_password [of "snd st" C "fst st"] show ?thesis by simp
    next
      case nonempty: False
      with False assms unlock_new [of "snd st" pw C "fst st"] show ?thesis
        by (auto simp: derive_checksum_hexlify)
    qed
  qed
  then show "password (snd s1) = Some pw"
    and "\<exists>M c. decrypted_master (snd s1) = Some M \<and> derive_checksum C M = Inr c"
    and "pw \<noteq> [] \<or> config_has_master (snd st)"
    by simp_all
qed

lemma unlocked_auto:
  assumes "password (snd st) = None" "environ (fst st) ''UNLOCK'' = Some u" "u \<noteq> []"
    and "config_has_master (snd st)"
  shows "unlocked C st =
         (case unlock C u st of
            (Inl e, st') \<Rightarrow> (Inl e, st')
          | (Inr x, st') \<Rightarrow> (Inr True, st'))"
proof -
  obtain r st' where res: "unlock C u st = (r, st')"
    by (cases "unlock C u st") blast
  show ?thesis
  proof (cases r)
    case (Inl e)
    with res assms show ?thesis by (simp add: unlocked.simps)
  next
    case (Inr x)
    with res have "password (snd st') = Some u" using unlock_success(1) by blast
    with res Inr assms show ?thesis by (simp add: unlocked.simps)
  qed
qed

lemma unlocked_False_unchanged:
  assumes "unlocked C st = (Inr False, st')"
  shows "st' = st"
proof (cases "password (snd st)")
  case (Some pw)
  with assms show ?thesis by (simp add: unlocked_held)
next
  case None
  show ?thesis
  proof (cases "environ (fst st) ''UNLOCK''")
    case n: None
    with None assms show ?thesis by (simp add: unlocked_no_auto)
  next
    case (Some u)
    show ?thesis
    proof (cases "u \<noteq> [] \<and> config_has_master (snd st)")
      case True
      with None Some assms unlocked_auto [of st u C] show ?thesis
        by (auto split: prod.splits sum.splits)
    next
      case False
      with None Some assms show ?thesis by (auto simp: unlocked.simps)
    qed
  qed
qed

lemma change_password_held:
  assumes "password (snd st) = Some P" "P \<noteq> []" "Q \<noteq> []"
    and "decrypted_master (snd st) = Some M" "derive_checksum C M = Inr c"
  shows "change_password C Q st =
         (Inr (),
          (urandom_advance 16 (fst st),
           (snd st)\<lparr>config := setitem (config (snd st)) (config_key (snd st))
                        (PyStr (c @ CHR ''$'' # aes_encrypt C Q (urandom_bytes 16 (fst st)) M)),
                    password := Some Q\<rparr>))"
  using assms
  by (simp add: change_password_def unlocked_held
      save_encrypted_master_held [where pw = Q and mk = M and cs = c])

lemma change_password_empty:
  assumes "password (snd st) = Some P" "P \<noteq> []"
  shows "change_password C [] st = (Inl WalletLocked, (fst st, (snd st)\<lparr>password := Some []\<rparr>))"
  using assms
  by (simp add: change_password_def unlocked_held save_encrypted_master.simps
      get_encrypted_master_empty_password)

lemma unlock_new_result:
  assumes "\<not> config_has_master m" "pw \<noteq> []"
  shows "fst (unlock C pw (os, m)) = Inr ()"
    and "config_has_master (snd (snd (unlock C pw (os, m))))"
    and "environ (fst (snd (unlock C pw (os, m)))) = environ os"
    and "password (snd (snd (unlock C pw (os, m)))) = Some pw"
    and "decrypted_master (snd (snd (unlock C pw (os, m)))) = Some (hexlify (urandom_bytes 32 os))"
  by (simp_all add: unlock_new [OF assms] config_has_master_entry setitem_def urandom_advance_def)

lemma lock_environ [simp]: "environ (fst (lock st)) = environ (fst st)"
  by (simp add: lock_def)

lemma locked_no_auto:
  assumes "password (snd st) = None" "environ (fst st) ''UNLOCK'' = None"
  shows "locked C st = (Inr True, st)"
  using assms by (simp add: locked_def unlocked_no_auto)

lemma lock_idem [simp]: "(snd (lock st))\<lparr>password := None\<rparr> = snd (lock st)"
  by (simp add: lock_def)

lemma pair_fst_snd_lock [simp]: "(fst st, snd (lock st)) = lock st"
  by (simp add: lock_def)

lemma demo_garbled_hunter2_wrong:
  "\<not> is_ascii (map (\<lambda>c. char_of (unat (of_char c + demo_key ''hunter2'' - demo_key ''wrong'')))
                   (hexlify (urandom_bytes 32 demo_os)))"
  by code_simp

lemma demo_rejects_wrong:
  "aes_rejects demo_crypto ''wrong''
     (demo_aes_encrypt ''hunter2'' iv (hexlify (urandom_bytes 32 demo_os))) cs"
  by (simp add: aes_rejects_def demo_aes_cross derive_checksum_non_ascii
      demo_garbled_hunter2_wrong)

lemma demo_os_environ [simp]: "environ demo_os = Map.empty"
  by (simp add: demo_os_def)

lemma demo_aes_same_key:
  "demo_key q = demo_key p \<Longrightarrow> demo_aes_decrypt q (demo_aes_encrypt p iv x) = Inr x"
  by (simp add: demo_aes_cross char_of_unat_of_char map_idI)

lemma demo_key_ab_ba: "demo_key ''ba'' = demo_key ''ab''"
  by code_simp

lemma demo_entry_fields: "stored_fields demo_entry_manager = Some (''0000'', ''xabc'')"
  by (simp add: demo_entry_manager_def demo_manager_def stored_fields_def getitem_def
      contains_def dict_contains_def dict_getitem_def setitem_def)

lemma demo_decrypt_malformed: "aes_decrypt demo_crypto ''pw'' ''xabc'' = Inl ValueError"
  by (simp add: demo_aes_decrypt_def hexval_def)

lemma dollar_decrypt_xabc: "aes_decrypt dollar_crypto ''pw'' ''xabc'' = Inr ''abc''"
  by (simp add: dollar_crypto_def)

lemma dollar_checksum_abc: "derive_checksum dollar_crypto ''abc'' = Inr ''2627''"
  by code_simp

lemma demo_os_unlock_simps [simp]:
  "environ (demo_os_unlock u) ''UNLOCK'' = Some u"
  "urandom_bytes n (demo_os_unlock u) = urandom_bytes n demo_os"
  "urandom_bytes n (urandom_advance k (demo_os_unlock u)) = urandom_bytes n (urandom_advance k demo_os)"
  by (simp_all add: demo_os_unlock_def urandom_bytes_def urandom_advance_def)

lemma demo_env_locked:
  "password (snd (lock (snd (unlock demo_crypto ''hunter2'' (demo_os_unlock u, demo_manager))))) = None"
  "environ (fst (lock (snd (unlock demo_crypto ''hunter2'' (demo_os_unlock u, demo_manager)))))
     ''UNLOCK'' = Some u"
  "config_has_master (snd (lock (snd (unlock demo_crypto ''hunter2'' (demo_os_unlock u, demo_manager)))))"
  "stored_fields (snd (lock (snd (unlock demo_crypto ''hunter2'' (demo_os_unlock u, demo_manager))))) =
   Some (take 4 (sha256_hexdigest demo_crypto (map of_char (hexlify (urandom_bytes 32 demo_os)))),
         demo_aes_encrypt ''hunter2'' (urandom_bytes 16 (urandom_advance 32 demo_os))
           (hexlify (urandom_bytes 32 demo_os)))"
  using unlock_new_result [of demo_manager "''hunter2''" demo_crypto "demo_os_unlock u"]
    unlock_new_then_lock [of demo_manager "''hunter2''" demo_crypto "demo_os_unlock u"]
  by (simp_all add: demo_aes_no_dollar)

lemma change_password_chain:
  assumes "password (snd s1) = Some P" "P \<noteq> []" "Q \<noteq> []"
    and "decrypted_master (snd s1) = Some M" "derive_checksum C M = Inr c"
    and "aes_decrypt C Q (aes_encrypt C Q (urandom_bytes 16 (fst s1)) M) = Inr M"
    and "CHR ''$'' \<notin> set (aes_encrypt C Q (urandom_bytes 16 (fst s1)) M)"
  shows "fst (change_password C Q s1) = Inr ()"
    and "stored_fields (snd (snd (change_password C Q s1))) =
         Some (c, aes_encrypt C Q (urandom_bytes 16 (fst s1)) M)"
    and "config_has_master (snd (snd (change_password C Q s1)))"
    and "unlock C Q (lock (snd (change_password C Q s1))) =
         (Inr (), (fst (lock (snd (change_password C Q s1))),
                   (snd (lock (snd (change_password C Q s1))))
                     \<lparr>password := Some Q, decrypted_master := Some M\<rparr>))"
proof -
  let ?ct = "aes_encrypt C Q (urandom_bytes 16 (fst s1)) M"
  note cp = change_password_held [OF assms(1,2,3,4,5)]
  have nc: "CHR ''$'' \<notin> set c" using assms(5) by (rule derive_checksum_Inr)
  show r: "fst (change_password C Q s1) = Inr ()" by (simp add: cp)
  show sf: "stored_fields (snd (snd (change_password C Q s1))) = Some (c, ?ct)"
    using stored_after_setitem(1) [OF nc assms(7), of "snd s1"] by (simp add: cp)
  show hm: "config_has_master (snd (snd (change_password C Q s1)))"
    using stored_after_setitem(2) [OF nc assms(7), of "snd s1"] by (simp add: cp)
  show "unlock C Q (lock (snd (change_password C Q s1))) =
         (Inr (), (fst (lock (snd (change_password C Q s1))),
                   (snd (lock (snd (change_password C Q s1))))
                     \<lparr>password := Some Q, decrypted_master := Some M\<rparr>))"
    by (rule unlock_accepted [where cs = c and ct = ?ct])
      (simp_all add: sf hm assms(5,6))
qed

lemma demo_garbled_wrong_hunter2:
  "\<not> is_ascii (map (\<lambda>c. char_of (unat (of_char c + demo_key ''wrong'' - demo_key ''hunter2'')))
                   (hexlify (urandom_bytes 32 demo_os)))"
  by code_simp

lemma demo_garbled_hunter2_empty:
  "\<not> is_ascii (map (\<lambda>c. char_of (unat (of_char c + demo_key ''hunter2'' - demo_key [])))
                   (hexlify (urandom_bytes 32 demo_os)))"
  by code_simp

lemma demo_unlocked_hunter2_eq:
  "unlock demo_crypto ''hunter2'' (demo_os, demo_manager) =
     (Inr (), snd (unlock demo_crypto ''hunter2'' (demo_os, demo_manager)))"
  using unlock_new_result(1) [of demo_manager "''hunter2''" demo_crypto demo_os]
  by (simp add: prod_eq_iff)

lemma demo_unlocked_hunter2:
  "password (snd (snd (unlock demo_crypto ''hunter2'' (demo_os, demo_manager)))) = Some ''hunter2''"
  "decrypted_master (snd (snd (unlock demo_crypto ''hunter2'' (demo_os, demo_manager)))) =
     Some (hexlify (urandom_bytes 32 demo_os))"
  "config_has_master (snd (snd (unlock demo_crypto ''hunter2'' (demo_os, demo_manager))))"
  "stored_fields (snd (snd (unlock demo_crypto ''hunter2'' (demo_os, demo_manager)))) =
   Some (take 4 (sha256_hexdigest demo_crypto (map of_char (hexlify (urandom_bytes 32 demo_os)))),
         demo_aes_encrypt ''hunter2'' (urandom_bytes 16 (urandom_advance 32 demo_os))
           (hexlify (urandom_bytes 32 demo_os)))"
  using unlock_new_result [of demo_manager "''hunter2''" demo_crypto demo_os]
    unlock_new_then_lock [of demo_manager "''hunter2''" demo_crypto demo_os]
  by (simp_all add: demo_aes_no_dollar)

section \<open>The properties\<close>

text \<open>
  C1 (as amended).  For every non-empty password \<open>P\<close>: \<open>unlock(P)\<close> on a manager whose
  config store has no encrypted master entry (none, or an empty one, which the code
  treats alike) succeeds and generates the master secret
  \<open>hexlify(os.urandom(32))\<close>; after \<open>lock()\<close>, \<open>unlock(P)\<close> succeeds again and
  \<open>masterkey\<close> is that same secret.  The cipher is assumed to decrypt what it encrypted
  under the same password and to produce ciphertext without \<open>$\<close>.
\<close>

theorem unlock_lock_unlock_same_master:
  assumes "P \<noteq> []" and "\<not> config_has_master m"
    and "\<forall>pw iv x. aes_decrypt C pw (aes_encrypt C pw iv x) = Inr x"
    and "\<forall>pw iv x. CHR ''$'' \<notin> set (aes_encrypt C pw iv x)"
  shows "fst (unlock C P (os, m)) = Inr () \<and>
         masterkey (snd (snd (unlock C P (os, m)))) = Some (hexlify (urandom_bytes 32 os)) \<and>
         fst (unlock C P (lock (snd (unlock C P (os, m))))) = Inr () \<and>
         masterkey (snd (snd (unlock C P (lock (snd (unlock C P (os, m)))))))
           = Some (hexlify (urandom_bytes 32 os))"
proof -
  let ?M = "hexlify (urandom_bytes 32 os)"
  let ?ct = "aes_encrypt C P (urandom_bytes 16 (urandom_advance 32 os)) ?M"
  let ?cs = "take 4 (sha256_hexdigest C (map of_char ?M))"
  let ?s1 = "snd (unlock C P (os, m))"
  have nd: "CHR ''$'' \<notin> set ?ct" using assms(4) by blast
  note first = unlock_new_then_lock [OF assms(2,1) nd]
  have dec: "aes_decrypt C P ?ct = Inr ?M" using assms(3) by blast
  have again: "unlock C P (lock ?s1) =
      (Inr (), (fst (lock ?s1), (snd (lock ?s1))\<lparr>password := Some P, decrypted_master := Some ?M\<rparr>))"
    by (rule unlock_accepted [where cs = ?cs and ct = ?ct])
      (simp_all add: first dec derive_checksum_hexlify)
  show ?thesis
    using first(1,2) by (simp add: again masterkey_def)
qed

text \<open>
  An instance of C1: the toy cipher, the password \<open>hunter2\<close>, an empty store and the
  random source that counts from 0.
\<close>

theorem unlock_lock_unlock_same_master_witness:
  "''hunter2'' \<noteq> [] \<and> \<not> config_has_master demo_manager \<and>
   fst (unlock demo_crypto ''hunter2'' (demo_os, demo_manager)) = Inr () \<and>
   masterkey (snd (snd (unlock demo_crypto ''hunter2'' (demo_os, demo_manager))))
     = Some ''000102030405060708090a0b0c0d0e0f101112131415161718191a1b1c1d1e1f'' \<and>
   fst (unlock demo_crypto ''hunter2''
          (lock (snd (unlock demo_crypto ''hunter2'' (demo_os, demo_manager))))) = Inr () \<and>
   masterkey (snd (snd (unlock demo_crypto ''hunter2''
          (lock (snd (unlock demo_crypto ''hunter2'' (demo_os, demo_manager)))))))
     = Some ''000102030405060708090a0b0c0d0e0f101112131415161718191a1b1c1d1e1f''"
  using unlock_lock_unlock_same_master [of "''hunter2''" demo_manager demo_crypto demo_os]
  by (simp add: demo_aes_roundtrip demo_aes_no_dollar demo_master_1)

text \<open>
  C1 as stated fails for the empty password: both \<open>unlock("")\<close> calls raise
  \<open>WalletLocked\<close>, nothing is persisted, and the second call generates a different
  secret.  It also fails for a cipher that decrypts what it encrypts but writes a \<open>$\<close>
  into the ciphertext (\<open>dollar_crypto_roundtrip\<close>): the second \<open>unlock\<close> raises
  \<open>ValueError\<close> when it unpacks the entry.
\<close>

theorem unlock_lock_unlock_same_master_counterexample:
  "fst (unlock demo_crypto [] (demo_os, demo_manager)) = Inl WalletLocked \<and>
   masterkey (snd (snd (unlock demo_crypto [] (demo_os, demo_manager))))
     = Some ''000102030405060708090a0b0c0d0e0f101112131415161718191a1b1c1d1e1f'' \<and>
   fst (unlock demo_crypto []
          (lock (snd (unlock demo_crypto [] (demo_os, demo_manager))))) = Inl WalletLocked \<and>
   masterkey (snd (snd (unlock demo_crypto []
          (lock (snd (unlock demo_crypto [] (demo_os, demo_manager)))))))
     = Some ''202122232425262728292a2b2c2d2e2f303132333435363738393a3b3c3d3e3f'' \<and>
   fst (unlock dollar_crypto ''hunter2'' (demo_os, demo_manager)) = Inr () \<and>
   fst (unlock dollar_crypto ''hunter2''
          (lock (snd (unlock dollar_crypto ''hunter2'' (demo_os, demo_manager))))) = Inl ValueError \<and>
   masterkey (snd (snd (unlock dollar_crypto ''hunter2''
          (lock (snd (unlock dollar_crypto ''hunter2'' (demo_os, demo_manager))))))) = None"
proof -
  have e1: "unlock demo_crypto [] (demo_os, demo_manager) =
      (Inl WalletLocked, (urandom_advance 32 demo_os,
         demo_manager\<lparr>password := Some [],
           decrypted_master := Some (hexlify (urandom_bytes 32 demo_os))\<rparr>))"
    by (simp add: unlock_new_empty_password)
  have e2: "unlock demo_crypto [] (lock (snd (unlock demo_crypto [] (demo_os, demo_manager)))) =
      (Inl WalletLocked, (urandom_advance 32 (urandom_advance 32 demo_os),
         demo_manager\<lparr>password := Some [],
           decrypted_master := Some (hexlify (urandom_bytes 32 (urandom_advance 32 demo_os)))\<rparr>))"
    unfolding e1
    using unlock_new_empty_password [of "demo_manager\<lparr>password := None, decrypted_master := None\<rparr>"
        demo_crypto "urandom_advance 32 demo_os"]
    by (simp add: lock_state)
  have d1: "unlock dollar_crypto ''hunter2'' (demo_os, demo_manager) =
      (Inr (), (urandom_advance 16 (urandom_advance 32 demo_os),
         demo_manager\<lparr>config := setitem (config demo_manager) (config_key demo_manager)
             (PyStr (take 4 (sha256_hexdigest dollar_crypto (map of_char (hexlify (urandom_bytes 32 demo_os))))
                     @ CHR ''$'' # CHR ''$'' # hexlify (urandom_bytes 32 demo_os))),
           password := Some ''hunter2'',
           decrypted_master := Some (hexlify (urandom_bytes 32 demo_os))\<rparr>))"
    by (simp add: unlock_new dollar_crypto_def)
  have d2: "unlock dollar_crypto ''hunter2''
        (lock (snd (unlock dollar_crypto ''hunter2'' (demo_os, demo_manager)))) =
      (Inl ValueError,
       (fst (lock (snd (unlock dollar_crypto ''hunter2'' (demo_os, demo_manager)))),
        (snd (lock (snd (unlock dollar_crypto ''hunter2'' (demo_os, demo_manager)))))
          \<lparr>password := Some ''hunter2''\<rparr>))"
    by (rule unlock_three_fields
        [where a = "take 4 (sha256_hexdigest dollar_crypto (map of_char (hexlify (urandom_bytes 32 demo_os))))"
           and b = "hexlify (urandom_bytes 32 demo_os)"])
      (simp_all add: d1 lock_state setitem_def dollar_notin_checksum dollar_notin_hexlify)
  show ?thesis
    unfolding e2 d2 unfolding e1 d1
    by (simp add: masterkey_def demo_master_1 demo_master_2 lock_state)
qed

text \<open>
  C2 (as amended).  For every non-empty password \<open>P\<close> and every password \<open>Q\<close>: after
  the store has been initialised with \<open>unlock(P)\<close> and locked with \<open>lock()\<close>, if
  the persisted entry splits at \<open>$\<close> into a checksum and a ciphertext and the cipher
  fails or garbles on that ciphertext under \<open>Q\<close> (it raises, or returns a string whose
  checksum differs from the persisted one), then \<open>unlock(Q)\<close> raises
  \<open>WrongMasterPasswordException\<close>, the held password is \<open>None\<close> and the manager is
  back in the locked state it was in before the attempt: the entry is still there, and
  \<open>locked()\<close> returns \<open>True\<close> when \<open>UNLOCK\<close> is not set.
\<close>

theorem unlock_wrong_password_rejected:
  assumes "P \<noteq> []" and "\<not> config_has_master m"
    and "stored_fields (snd (snd (unlock C P (os, m)))) = Some (cs, ct)"
    and "aes_rejects C Q ct cs"
  shows "unlock C Q (lock (snd (unlock C P (os, m)))) =
           (Inl WrongMasterPasswordException, lock (snd (unlock C P (os, m)))) \<and>
         password (snd (lock (snd (unlock C P (os, m))))) = None \<and>
         config_has_master (snd (lock (snd (unlock C P (os, m))))) \<and>
         (environ os ''UNLOCK'' = None \<longrightarrow>
            locked C (lock (snd (unlock C P (os, m)))) =
              (Inr True, lock (snd (unlock C P (os, m)))))"
proof -
  let ?s = "lock (snd (unlock C P (os, m)))"
  note first = unlock_new_result [OF assms(2,1), of C os]
  have hm: "config_has_master (snd ?s)" using first(2) by simp
  have sf: "stored_fields (snd ?s) = Some (cs, ct)" using assms(3) by simp
  have "unlock C Q ?s = (Inl WrongMasterPasswordException, (fst ?s, (snd ?s)\<lparr>password := None\<rparr>))"
    by (rule unlock_rejected [OF hm sf assms(4)])
  then have rej: "unlock C Q ?s = (Inl WrongMasterPasswordException, ?s)"
    by simp
  have lk: "environ os ''UNLOCK'' = None \<longrightarrow> locked C ?s = (Inr True, ?s)"
    using first(3) by (simp add: locked_no_auto)
  show ?thesis using rej hm lk by simp
qed

text \<open>An instance of C2: the store is initialised under \<open>hunter2\<close>, the attempt uses \<open>wrong\<close>.\<close>

theorem unlock_wrong_password_rejected_witness:
  "unlock demo_crypto ''wrong'' (lock (snd (unlock demo_crypto ''hunter2'' (demo_os, demo_manager)))) =
     (Inl WrongMasterPasswordException,
      lock (snd (unlock demo_crypto ''hunter2'' (demo_os, demo_manager)))) \<and>
   password (snd (lock (snd (unlock demo_crypto ''hunter2'' (demo_os, demo_manager))))) = None \<and>
   config_has_master (snd (lock (snd (unlock demo_crypto ''hunter2'' (demo_os, demo_manager))))) \<and>
   locked demo_crypto (lock (snd (unlock demo_crypto ''hunter2'' (demo_os, demo_manager)))) =
     (Inr True, lock (snd (unlock demo_crypto ''hunter2'' (demo_os, demo_manager))))"
proof -
  have sf: "stored_fields (snd (snd (unlock demo_crypto ''hunter2'' (demo_os, demo_manager)))) =
      Some (take 4 (sha256_hexdigest demo_crypto
                      (map of_char (hexlify (urandom_bytes 32 demo_os)))),
            demo_aes_encrypt ''hunter2'' (urandom_bytes 16 (urandom_advance 32 demo_os))
              (hexlify (urandom_bytes 32 demo_os)))"
    using unlock_new_then_lock(5) [of demo_manager "''hunter2''" demo_crypto demo_os]
    by (simp add: demo_aes_no_dollar)
  show ?thesis
    using unlock_wrong_password_rejected [OF _ _ sf demo_rejects_wrong]
    by simp
qed

text \<open>
  C2 as stated fails when \<open>P\<close> is empty: the initialising \<open>unlock("")\<close> persists
  nothing, so \<open>unlock("hunter2")\<close> creates a master and succeeds.  It also depends on
  the cipher: under the toy cipher the distinct passwords \<open>ab\<close> and \<open>ba\<close> have the
  same key, and \<open>unlock("ba")\<close> opens a store initialised with \<open>ab\<close>.
\<close>

theorem unlock_wrong_password_rejected_counterexample:
  "fst (unlock demo_crypto ''hunter2''
          (lock (snd (unlock demo_crypto [] (demo_os, demo_manager))))) = Inr () \<and>
   fst (unlock demo_crypto ''ba''
          (lock (snd (unlock demo_crypto ''ab'' (demo_os, demo_manager))))) = Inr ()"
proof -
  have a: "fst (unlock demo_crypto ''hunter2''
          (lock (snd (unlock demo_crypto [] (demo_os, demo_manager))))) = Inr ()"
    using unlock_new_result(1) [of "demo_manager\<lparr>password := None, decrypted_master := None\<rparr>"
        "''hunter2''" demo_crypto "urandom_advance 32 demo_os"]
    by (simp add: unlock_new_empty_password lock_state)
  let ?s1 = "snd (unlock demo_crypto ''ab'' (demo_os, demo_manager))"
  let ?M = "hexlify (urandom_bytes 32 demo_os)"
  note first = unlock_new_then_lock
    [of demo_manager "''ab''" demo_crypto demo_os, simplified, OF demo_aes_no_dollar]
  have "unlock demo_crypto ''ba'' (lock ?s1) =
      (Inr (), (fst (lock ?s1),
                (snd (lock ?s1))\<lparr>password := Some ''ba'', decrypted_master := Some ?M\<rparr>))"
    by (rule unlock_accepted
        [where cs = "take 4 (sha256_hexdigest demo_crypto (map of_char ?M))"
           and ct = "demo_aes_encrypt ''ab'' (urandom_bytes 16 (urandom_advance 32 demo_os)) ?M"])
      (simp_all add: first demo_aes_same_key demo_key_ab_ba derive_checksum_hexlify)
  with a show ?thesis by simp
qed

text \<open>
  C3.  The claim is that \<open>masterkey\<close> is \<open>None\<close> whenever \<open>locked()\<close> returns
  \<open>True\<close>, in particular after every \<open>unlock\<close> attempt that raises
  \<open>WrongMasterPasswordException\<close>, whatever the state before.  The code does not do
  this: \<open>lock\<close> clears \<open>password\<close> and \<open>decrypted_master\<close>, but
  \<open>raise_wrong_master_password_exception\<close> clears \<open>password\<close> only.  Evaluated on
  a manager unlocked under \<open>hunter2\<close>: \<open>unlock("wrong")\<close> raises, \<open>locked()\<close>
  then returns \<open>True\<close>, and \<open>masterkey\<close> is still the master secret.
\<close>

theorem wrong_password_keeps_master_resident:
  "fst (unlock demo_crypto ''wrong'' (snd (unlock demo_crypto ''hunter2'' (demo_os, demo_manager))))
     = Inl WrongMasterPasswordException \<and>
   locked demo_crypto
     (snd (unlock demo_crypto ''wrong'' (snd (unlock demo_crypto ''hunter2'' (demo_os, demo_manager)))))
     = (Inr True,
        snd (unlock demo_crypto ''wrong'' (snd (unlock demo_crypto ''hunter2'' (demo_os, demo_manager))))) \<and>
   masterkey
     (snd (snd (unlock demo_crypto ''wrong''
                  (snd (unlock demo_crypto ''hunter2'' (demo_os, demo_manager))))))
     = Some ''000102030405060708090a0b0c0d0e0f101112131415161718191a1b1c1d1e1f''"
proof -
  let ?s1 = "snd (unlock demo_crypto ''hunter2'' (demo_os, demo_manager))"
  note first = unlock_new_then_lock
    [of demo_manager "''hunter2''" demo_crypto demo_os, simplified, OF demo_aes_no_dollar]
  note res = unlock_new_result [of demo_manager "''hunter2''" demo_crypto demo_os, simplified]
  have rej: "unlock demo_crypto ''wrong'' ?s1 =
      (Inl WrongMasterPasswordException, (fst ?s1, (snd ?s1)\<lparr>password := None\<rparr>))"
    by (rule unlock_rejected [OF first(4) first(5)]) (simp add: demo_rejects_wrong)
  have lk: "locked demo_crypto (fst ?s1, (snd ?s1)\<lparr>password := None\<rparr>) =
      (Inr True, (fst ?s1, (snd ?s1)\<lparr>password := None\<rparr>))"
    by (rule locked_no_auto) (simp_all add: res)
  show ?thesis
    unfolding rej using lk first(2) by (simp add: masterkey_def demo_master_1)
qed

text \<open>
  C4.  In \<open>decrypt_encrypted_master\<close>, with a password held and a stored entry of two
  fields: when the cipher raises any exception \<open>e\<close>, the outcome is
  \<open>WrongMasterPasswordException\<close> with \<open>password\<close> set to \<open>None\<close> and nothing else
  changed; and a cipher that instead returns a string whose checksum differs from the
  stored one gives exactly the same outcome on the same state.
\<close>

theorem cipher_error_same_as_checksum_mismatch:
  assumes "password (snd st) = Some pw" and "stored_fields (snd st) = Some (cs, ct)"
    and "aes_decrypt C pw ct = Inl e"
    and "aes_decrypt C' pw ct = Inr dm" and "derive_checksum C' dm = Inr c" and "c \<noteq> cs"
  shows "decrypt_encrypted_master C st =
           (Inl WrongMasterPasswordException, (fst st, (snd st)\<lparr>password := None\<rparr>)) \<and>
         decrypt_encrypted_master C' st = decrypt_encrypted_master C st"
proof -
  have a: "decrypt_encrypted_master C st =
      (Inl WrongMasterPasswordException, (fst st, (snd st)\<lparr>password := None\<rparr>))"
    using assms(3) by (simp add: decrypt_encrypted_master_fields [OF assms(1,2)])
  have b: "decrypt_encrypted_master C' st =
      (Inl WrongMasterPasswordException, (fst st, (snd st)\<lparr>password := None\<rparr>))"
    using assms(4,5,6) by (auto simp: decrypt_encrypted_master_fields [OF assms(1,2)])
  show ?thesis using a b by simp
qed

text \<open>
  An instance of C4: on the entry \<open>0000$xabc\<close> the toy cipher raises (\<open>xabc\<close> is not
  hexadecimal) and \<open>dollar_crypto\<close> returns \<open>abc\<close>, whose checksum is not \<open>0000\<close>.
\<close>

theorem cipher_error_same_as_checksum_mismatch_witness:
  "decrypt_encrypted_master demo_crypto (demo_os, demo_entry_manager) =
     (Inl WrongMasterPasswordException, (demo_os, demo_entry_manager\<lparr>password := None\<rparr>)) \<and>
   decrypt_encrypted_master dollar_crypto (demo_os, demo_entry_manager) =
     decrypt_encrypted_master demo_crypto (demo_os, demo_entry_manager)"
proof -
  have pw: "password (snd (demo_os, demo_entry_manager)) = Some ''pw''"
    by (simp add: demo_entry_manager_def)
  have sf: "stored_fields (snd (demo_os, demo_entry_manager)) = Some (''0000'', ''xabc'')"
    by (simp add: demo_entry_fields)
  have neq: "''2627'' \<noteq> ''0000''" by simp
  show ?thesis
    using cipher_error_same_as_checksum_mismatch
      [OF pw sf demo_decrypt_malformed dollar_decrypt_xabc dollar_checksum_abc neq]
    by simp
qed

text \<open>
  C5 (as amended).  When no password is held, \<open>UNLOCK\<close> is set to a non-empty value
  and an encrypted master entry exists, \<open>unlocked()\<close> attempts \<open>unlock\<close> with that
  value.  If the attempt succeeds \<open>unlocked()\<close> returns \<open>True\<close>; if it raises, the
  exception reaches the caller of \<open>unlocked()\<close>.  In this situation \<open>unlocked()\<close>
  never returns \<open>False\<close>.
\<close>

theorem auto_unlock_raises_or_unlocks:
  assumes "password (snd st) = None" and "environ (fst st) ''UNLOCK'' = Some u" and "u \<noteq> []"
    and "config_has_master (snd st)"
  shows "unlocked C st =
           (case unlock C u st of
              (Inl e, st') \<Rightarrow> (Inl e, st')
            | (Inr x, st') \<Rightarrow> (Inr True, st')) \<and>
         fst (unlocked C st) \<noteq> Inr False"
proof -
  have eq: "unlocked C st =
           (case unlock C u st of
              (Inl e, st') \<Rightarrow> (Inl e, st')
            | (Inr x, st') \<Rightarrow> (Inr True, st'))"
    by (rule unlocked_auto [OF assms])
  then have "fst (unlocked C st) \<noteq> Inr False"
    by (auto split: prod.splits sum.splits)
  with eq show ?thesis by simp
qed

text \<open>An instance of C5: the store is locked and \<open>UNLOCK\<close> holds the right password.\<close>

theorem auto_unlock_raises_or_unlocks_witness:
  "unlocked demo_crypto
     (lock (snd (unlock demo_crypto ''hunter2'' (demo_os_unlock ''hunter2'', demo_manager)))) =
   (Inr True,
    (fst (lock (snd (unlock demo_crypto ''hunter2'' (demo_os_unlock ''hunter2'', demo_manager)))),
     (snd (lock (snd (unlock demo_crypto ''hunter2'' (demo_os_unlock ''hunter2'', demo_manager)))))
       \<lparr>password := Some ''hunter2'',
        decrypted_master := Some ''000102030405060708090a0b0c0d0e0f101112131415161718191a1b1c1d1e1f''\<rparr>))"
proof -
  let ?s = "lock (snd (unlock demo_crypto ''hunter2'' (demo_os_unlock ''hunter2'', demo_manager)))"
  let ?M = "hexlify (urandom_bytes 32 demo_os)"
  have ne: "''hunter2'' \<noteq> []" by simp
  have acc: "unlock demo_crypto ''hunter2'' ?s =
      (Inr (), (fst ?s, (snd ?s)\<lparr>password := Some ''hunter2'', decrypted_master := Some ?M\<rparr>))"
    by (rule unlock_accepted [OF demo_env_locked(3) demo_env_locked(4)])
      (simp_all add: demo_aes_roundtrip derive_checksum_hexlify)
  show ?thesis
    using auto_unlock_raises_or_unlocks
      [OF demo_env_locked(1) demo_env_locked(2) ne demo_env_locked(3), of demo_crypto]
    unfolding acc by (simp add: demo_master_1)
qed

text \<open>
  C5 as stated fails: with \<open>UNLOCK\<close> set to a wrong password, \<open>unlocked()\<close> does not
  return \<open>False\<close>, it raises \<open>WrongMasterPasswordException\<close>.
\<close>

theorem auto_unlock_raises_or_unlocks_counterexample:
  "fst (unlocked demo_crypto
          (lock (snd (unlock demo_crypto ''hunter2'' (demo_os_unlock ''wrong'', demo_manager)))))
   = Inl WrongMasterPasswordException"
proof -
  let ?s = "lock (snd (unlock demo_crypto ''hunter2'' (demo_os_unlock ''wrong'', demo_manager)))"
  have ne: "''wrong'' \<noteq> []" by simp
  have rej: "unlock demo_crypto ''wrong'' ?s =
      (Inl WrongMasterPasswordException, (fst ?s, (snd ?s)\<lparr>password := None\<rparr>))"
    by (rule unlock_rejected [OF demo_env_locked(3) demo_env_locked(4)])
      (simp add: demo_rejects_wrong)
  show ?thesis
    using unlocked_auto [OF demo_env_locked(1) demo_env_locked(2) ne demo_env_locked(3), of demo_crypto]
    unfolding rej by simp
qed

text \<open>
  C6.  In every state in which \<open>locked()\<close> returns \<open>True\<close>, that call changes
  nothing, and each of \<open>encrypt(wif)\<close>, \<open>decrypt(wif)\<close> and
  \<open>change_password(new_password)\<close> raises \<open>WalletLocked\<close> and leaves the whole state
  (config store, held password, master secret) as it was.
\<close>

theorem locked_operations_raise_WalletLocked:
  assumes "locked C st = (Inr True, st')"
  shows "st' = st \<and>
         encrypt C wif st = (Inl WalletLocked, st) \<and>
         decrypt C wif st = (Inl WalletLocked, st) \<and>
         change_password C new_password st = (Inl WalletLocked, st)"
proof -
  from assms have u: "unlocked C st = (Inr False, st')"
    by (auto simp: locked_def split: prod.splits sum.splits)
  then have same: "st' = st" by (rule unlocked_False_unchanged)
  with u have "unlocked C st = (Inr False, st)" by simp
  then show ?thesis
    using same by (simp add: encrypt_def decrypt_def change_password_def)
qed

text \<open>An instance of C6: a store initialised under \<open>hunter2\<close> and then locked.\<close>

theorem locked_operations_raise_WalletLocked_witness:
  "locked demo_crypto (lock (snd (unlock demo_crypto ''hunter2'' (demo_os, demo_manager)))) =
     (Inr True, lock (snd (unlock demo_crypto ''hunter2'' (demo_os, demo_manager)))) \<and>
   encrypt demo_crypto ''5JWif'' (lock (snd (unlock demo_crypto ''hunter2'' (demo_os, demo_manager)))) =
     (Inl WalletLocked, lock (snd (unlock demo_crypto ''hunter2'' (demo_os, demo_manager)))) \<and>
   decrypt demo_crypto ''6PWif'' (lock (snd (unlock demo_crypto ''hunter2'' (demo_os, demo_manager)))) =
     (Inl WalletLocked, lock (snd (unlock demo_crypto ''hunter2'' (demo_os, demo_manager)))) \<and>
   change_password demo_crypto ''letmein''
       (lock (snd (unlock demo_crypto ''hunter2'' (demo_os, demo_manager)))) =
     (Inl WalletLocked, lock (snd (unlock demo_crypto ''hunter2'' (demo_os, demo_manager))))"
proof -
  let ?s = "lock (snd (unlock demo_crypto ''hunter2'' (demo_os, demo_manager)))"
  have lk: "locked demo_crypto ?s = (Inr True, ?s)"
    using unlock_new_result(3) [of demo_manager "''hunter2''" demo_crypto demo_os]
    by (simp add: locked_no_auto)
  show ?thesis
    using locked_operations_raise_WalletLocked [OF lk, of "''5JWif''" "''letmein''"]
      locked_operations_raise_WalletLocked [OF lk, of "''6PWif''" "''letmein''"] lk
    by simp
qed

text \<open>
  C7 (as amended).  For all non-empty passwords \<open>P\<close> and \<open>Q\<close>: after a successful
  \<open>unlock(P)\<close> that left the master secret \<open>M\<close>, \<open>change_password(Q)\<close> succeeds;
  after \<open>lock()\<close>, \<open>unlock(Q)\<close> succeeds and \<open>masterkey\<close> is again \<open>M\<close>; and a
  following \<open>unlock(P)\<close> raises \<open>WrongMasterPasswordException\<close>.  The cipher is
  assumed to decrypt what it encrypted under the same password, to produce ciphertext
  without \<open>$\<close>, and to fail or garble under \<open>P\<close> on its own encryption of \<open>M\<close> under
  \<open>Q\<close>: decrypting that under \<open>P\<close> raises, or gives a string whose checksum is not
  the checksum of \<open>M\<close>.
\<close>

theorem change_password_then_unlock:
  assumes "unlock C P st0 = (Inr (), s1)" and "P \<noteq> []" and "Q \<noteq> []"
    and "\<forall>pw iv x. aes_decrypt C pw (aes_encrypt C pw iv x) = Inr x"
    and "\<forall>pw iv x. CHR ''$'' \<notin> set (aes_encrypt C pw iv x)"
    and "masterkey (snd s1) = Some M"
    and "aes_rejects C P (aes_encrypt C Q (urandom_bytes 16 (fst s1)) M)
           (take 4 (sha256_hexdigest C (map of_char M)))"
  shows "fst (change_password C Q s1) = Inr () \<and>
         fst (unlock C Q (lock (snd (change_password C Q s1)))) = Inr () \<and>
         masterkey (snd (snd (unlock C Q (lock (snd (change_password C Q s1))))))
           = Some M \<and>
         fst (unlock C P (snd (unlock C Q (lock (snd (change_password C Q s1))))))
           = Inl WrongMasterPasswordException"
proof -
  let ?s2 = "snd (change_password C Q s1)"
  let ?ct = "aes_encrypt C Q (urandom_bytes 16 (fst s1)) M"
  let ?cs = "take 4 (sha256_hexdigest C (map of_char M))"
  have dm: "decrypted_master (snd s1) = Some M"
    using assms(6) by (simp add: masterkey_def)
  from unlock_success [OF assms(1)] dm obtain c
    where pw: "password (snd s1) = Some P" and ck: "derive_checksum C M = Inr c"
    by auto
  from ck have c: "c = ?cs"
    by (auto simp: derive_checksum_def bytes_ascii_def split: if_splits)
  have rt: "aes_decrypt C Q ?ct = Inr M"
    using assms(4) by blast
  have nd: "CHR ''$'' \<notin> set ?ct"
    using assms(5) by blast
  note chain = change_password_chain [OF pw assms(2,3) dm ck rt nd]
  let ?s3 = "(fst (lock ?s2), (snd (lock ?s2))\<lparr>password := Some Q, decrypted_master := Some M\<rparr>)"
  have hm3: "config_has_master (snd ?s3)" using chain(3) by simp
  have sf3: "stored_fields (snd ?s3) = Some (?cs, ?ct)" using chain(2) c by simp
  have rej: "unlock C P ?s3 = (Inl WrongMasterPasswordException, (fst ?s3, (snd ?s3)\<lparr>password := None\<rparr>))"
    by (rule unlock_rejected [OF hm3 sf3 assms(7)])
  show ?thesis
    unfolding chain(4) using chain(1) rej by (simp add: masterkey_def)
qed

text \<open>An instance of C7: from \<open>hunter2\<close> to \<open>wrong\<close>.\<close>

theorem change_password_then_unlock_witness:
  "fst (change_password demo_crypto ''wrong''
          (snd (unlock demo_crypto ''hunter2'' (demo_os, demo_manager)))) = Inr () \<and>
   fst (unlock demo_crypto ''wrong''
          (lock (snd (change_password demo_crypto ''wrong''
                        (snd (unlock demo_crypto ''hunter2'' (demo_os, demo_manager))))))) = Inr () \<and>
   masterkey (snd (snd (unlock demo_crypto ''wrong''
          (lock (snd (change_password demo_crypto ''wrong''
                        (snd (unlock demo_crypto ''hunter2'' (demo_os, demo_manager))))))))) =
     Some ''000102030405060708090a0b0c0d0e0f101112131415161718191a1b1c1d1e1f'' \<and>
   fst (unlock demo_crypto ''hunter2''
          (snd (unlock demo_crypto ''wrong''
             (lock (snd (change_password demo_crypto ''wrong''
                        (snd (unlock demo_crypto ''hunter2'' (demo_os, demo_manager))))))))) =
     Inl WrongMasterPasswordException"
proof -
  let ?s1 = "snd (unlock demo_crypto ''hunter2'' (demo_os, demo_manager))"
  let ?M = "hexlify (urandom_bytes 32 demo_os)"
  have p: "''hunter2'' \<noteq> []" and q: "''wrong'' \<noteq> []" by simp_all
  have rt: "\<forall>pw iv x. aes_decrypt demo_crypto pw (aes_encrypt demo_crypto pw iv x) = Inr x"
    by (simp add: demo_aes_roundtrip)
  have nd: "\<forall>pw iv x. CHR ''$'' \<notin> set (aes_encrypt demo_crypto pw iv x)"
    by (simp add: demo_aes_no_dollar)
  have mk: "masterkey (snd ?s1) = Some ?M"
    by (simp add: masterkey_def demo_unlocked_hunter2(2))
  have rj: "aes_rejects demo_crypto ''hunter2''
              (aes_encrypt demo_crypto ''wrong'' (urandom_bytes 16 (fst ?s1)) ?M)
              (take 4 (sha256_hexdigest demo_crypto (map of_char ?M)))"
    by (simp add: aes_rejects_def demo_aes_cross derive_checksum_non_ascii
        demo_garbled_wrong_hunter2)
  show ?thesis
    using change_password_then_unlock [OF demo_unlocked_hunter2_eq p q rt nd mk rj]
    by (simp add: demo_master_1)
qed

text \<open>
  C7 as stated fails for the empty new password: \<open>change_password("")\<close> raises
  \<open>WalletLocked\<close> and writes no entry, so \<open>unlock("")\<close> after \<open>lock()\<close> raises
  \<open>WrongMasterPasswordException\<close>.  It also fails for \<open>P = Q\<close>: the last
  \<open>unlock(P)\<close> succeeds.
\<close>

theorem change_password_then_unlock_counterexample:
  "fst (change_password demo_crypto []
          (snd (unlock demo_crypto ''hunter2'' (demo_os, demo_manager)))) = Inl WalletLocked \<and>
   fst (unlock demo_crypto []
          (lock (snd (change_password demo_crypto []
                        (snd (unlock demo_crypto ''hunter2'' (demo_os, demo_manager)))))))
     = Inl WrongMasterPasswordException \<and>
   fst (unlock demo_crypto ''hunter2''
          (snd (unlock demo_crypto ''hunter2''
             (lock (snd (change_password demo_crypto ''hunter2''
                        (snd (unlock demo_crypto ''hunter2'' (demo_os, demo_manager)))))))))
     = Inr ()"
proof -
  let ?s1 = "snd (unlock demo_crypto ''hunter2'' (demo_os, demo_manager))"
  let ?M = "hexlify (urandom_bytes 32 demo_os)"
  let ?cs = "take 4 (sha256_hexdigest demo_crypto (map of_char ?M))"
  have cpe: "change_password demo_crypto [] ?s1 =
      (Inl WalletLocked, (fst ?s1, (snd ?s1)\<lparr>password := Some []\<rparr>))"
    by (rule change_password_empty [OF demo_unlocked_hunter2(1)]) simp
  have a: "fst (change_password demo_crypto [] ?s1) = Inl WalletLocked"
    by (simp add: cpe)
  have rj: "aes_rejects demo_crypto []
      (demo_aes_encrypt ''hunter2'' (urandom_bytes 16 (urandom_advance 32 demo_os)) ?M) ?cs"
    by (simp add: aes_rejects_def demo_aes_cross derive_checksum_non_ascii
        demo_garbled_hunter2_empty)
  have "unlock demo_crypto [] (lock (snd (change_password demo_crypto [] ?s1))) =
      (Inl WrongMasterPasswordException,
       (fst (lock (snd (change_password demo_crypto [] ?s1))),
        (snd (lock (snd (change_password demo_crypto [] ?s1))))\<lparr>password := None\<rparr>))"
    by (rule unlock_rejected [OF _ _ rj]) (simp_all add: cpe demo_unlocked_hunter2)
  then have b: "fst (unlock demo_crypto [] (lock (snd (change_password demo_crypto [] ?s1)))) =
      Inl WrongMasterPasswordException"
    by simp
  let ?ct2 = "demo_aes_encrypt ''hunter2'' (urandom_bytes 16 (fst ?s1)) ?M"
  note chain = change_password_chain
    [of ?s1 "''hunter2''" "''hunter2''" ?M demo_crypto ?cs, simplified demo_unlocked_hunter2,
     simplified, OF derive_checksum_hexlify demo_aes_roundtrip demo_aes_no_dollar]
  let ?s2 = "snd (change_password demo_crypto ''hunter2'' ?s1)"
  let ?s3 = "(fst (lock ?s2), (snd (lock ?s2))\<lparr>password := Some ''hunter2'', decrypted_master := Some ?M\<rparr>)"
  have "unlock demo_crypto ''hunter2'' ?s3 =
      (Inr (), (fst ?s3, (snd ?s3)\<lparr>password := Some ''hunter2'', decrypted_master := Some ?M\<rparr>))"
    by (rule unlock_accepted [where cs = ?cs and ct = ?ct2])
      (simp_all add: chain demo_aes_roundtrip derive_checksum_hexlify)
  then have c: "fst (unlock demo_crypto ''hunter2''
      (snd (unlock demo_crypto ''hunter2'' (lock ?s2)))) = Inr ()"
    by (simp add: chain(4))
  from a b c show ?thesis by simp
qed

text \<open>
  C8 (as amended).  For every string \<open>s\<close> of ASCII characters, \<open>derive_checksum(s)\<close>
  is the first 4 characters of the lowercase hexadecimal digest of the bytes of \<open>s\<close>;
  with a 32-byte digest, as SHA-256 gives, it has 4 characters, all of them lowercase
  hexadecimal digits.  Being a function of \<open>s\<close> and the hash alone, it is
  deterministic.
\<close>

theorem derive_checksum_ascii_prefix:
  assumes "is_ascii s" and "length (sha256 C (map of_char s)) = 32"
  shows "derive_checksum C s = Inr (take 4 (sha256_hexdigest C (map of_char s))) \<and>
         length (take 4 (sha256_hexdigest C (map of_char s))) = 4 \<and>
         set (take 4 (sha256_hexdigest C (map of_char s))) \<subseteq> set ''0123456789abcdef''"
proof -
  have "set (take 4 (sha256_hexdigest C (map of_char s))) \<subseteq> set (hexlify (sha256 C (map of_char s)))"
    unfolding sha256_hexdigest_def by (rule set_take_subset)
  then have "set (take 4 (sha256_hexdigest C (map of_char s))) \<subseteq> set ''0123456789abcdef''"
    using set_hexlify by blast
  then show ?thesis
    using assms by (simp add: derive_checksum_ascii sha256_hexdigest_def length_hexlify)
qed

text \<open>An instance of C8: the string \<open>abc\<close> under the toy digest.\<close>

theorem derive_checksum_ascii_prefix_witness:
  "is_ascii ''abc'' \<and> length (sha256 demo_crypto (map of_char ''abc'')) = 32 \<and>
   derive_checksum demo_crypto ''abc'' = Inr ''2627''"
proof -
  have a: "is_ascii ''abc''" by (simp add: is_ascii_def)
  have l: "length (sha256 demo_crypto (map of_char ''abc'')) = 32"
    by (simp add: demo_sha256_def)
  have v: "take 4 (sha256_hexdigest demo_crypto (map of_char ''abc'')) = ''2627''"
    by code_simp
  show ?thesis
    using derive_checksum_ascii_prefix [OF a l] a l v by simp
qed

text \<open>
  C8 as stated fails for a string with a character outside ASCII, here U+00E9:
  \<open>bytes(s, "ascii")\<close> raises \<open>UnicodeEncodeError\<close> and no checksum is returned.
\<close>

theorem derive_checksum_ascii_prefix_counterexample:
  "derive_checksum demo_crypto [CHR 0xE9] = Inl UnicodeEncodeError"
  by (simp add: derive_checksum_def bytes_ascii_def is_ascii_def)

text \<open>
  C9.  \<open>StoreInterface.__getitem__\<close> never raises: it returns the stored value if the
  key is present, otherwise the class-level default if one is registered, otherwise
  \<open>None\<close>; and after \<open>setdefault(key, d)\<close> a lookup of \<open>key\<close> returns the stored
  value if there is one and \<open>d\<close> otherwise.
\<close>

theorem getitem_never_raises:
  "getitem s key =
     Inr (case items s key of
            Some v \<Rightarrow> v
          | None \<Rightarrow> (case defaults s key of Some d \<Rightarrow> d | None \<Rightarrow> PyNone)) \<and>
   getitem (setdefault s key d) key = Inr (case items s key of Some v \<Rightarrow> v | None \<Rightarrow> d)"
  by (simp add: getitem_def setdefault_def contains_def dict_contains_def dict_getitem_def
      split: option.splits)

text \<open>
  C10.  On a store with no encrypted master entry, \<open>unlock("")\<close> raises
  \<open>WalletLocked\<close>: \<open>new_master\<close> has generated \<open>decrypted_master\<close>, which stays
  resident, the held password is the empty string, which \<open>unlocked()\<close> treats as
  locked, and the config store is unchanged.
\<close>

theorem unlock_empty_password_partial_state:
  assumes "\<not> contains (config m) (config_key m)"
  shows "unlock C [] (os, m) =
           (Inl WalletLocked,
            (urandom_advance 32 os,
             m\<lparr>password := Some [],
                decrypted_master := Some (hexlify (urandom_bytes 32 os))\<rparr>)) \<and>
         masterkey (snd (snd (unlock C [] (os, m)))) = Some (hexlify (urandom_bytes 32 os)) \<and>
         config (snd (snd (unlock C [] (os, m)))) = config m \<and>
         unlocked C (snd (unlock C [] (os, m))) = (Inr False, snd (unlock C [] (os, m)))"
proof -
  from assms have nm: "\<not> config_has_master m" by (simp add: config_has_master_def)
  show ?thesis
    by (simp add: unlock_new_empty_password [OF nm] masterkey_def unlocked_held)
qed

text \<open>An instance of C10: the empty store.\<close>

theorem unlock_empty_password_partial_state_witness:
  "\<not> contains (config demo_manager) (config_key demo_manager) \<and>
   fst (unlock demo_crypto [] (demo_os, demo_manager)) = Inl WalletLocked \<and>
   masterkey (snd (snd (unlock demo_crypto [] (demo_os, demo_manager)))) =
     Some ''000102030405060708090a0b0c0d0e0f101112131415161718191a1b1c1d1e1f'' \<and>
   config (snd (snd (unlock demo_crypto [] (demo_os, demo_manager)))) = demo_store"
proof -
  have nc: "\<not> contains (config demo_manager) (config_key demo_manager)"
    by (simp add: demo_manager_def demo_store_def contains_def dict_contains_def)
  have cf: "config demo_manager = demo_store" by (simp add: demo_manager_def)
  show ?thesis
    using unlock_empty_password_partial_state [OF nc, of demo_crypto demo_os] nc
    by (simp add: demo_master_1 cf masterkey_def)
qed

end
